theory Spec2Isabelle
  imports Main
begin

section \<open>Python strings\<close>

text \<open>
  A Python \<open>str\<close> is a sequence of Unicode code points; slicing, \<open>len\<close>, \<open>in\<close>,
  \<open>replace\<close> and the \<open>re\<close> module all count code points.  A character is therefore
  modelled by its code point and a string by the list of its code points.
\<close>

type_synonym pychar = nat
type_synonym pystr = "nat list"

text \<open>ASCII literals are written as HOL strings and converted code point by code point.\<close>

definition ustr :: "string \<Rightarrow> pystr" where
  "ustr s = map of_char s"

text \<open>
  \<open>str.isalnum\<close> and the \<open>\w\<close> of a \<open>str\<close> pattern consult the Unicode database of the
  interpreter.  On ASCII the answer is fixed (letters and digits); beyond ASCII the table
  is a parameter \<open>U\<close> of the model.
\<close>

definition ascii_alnum :: "pychar \<Rightarrow> bool" where
  "ascii_alnum c = ((48 \<le> c \<and> c \<le> 57) \<or> (65 \<le> c \<and> c \<le> 90) \<or> (97 \<le> c \<and> c \<le> 122))"

definition isalnum :: "(pychar \<Rightarrow> bool) \<Rightarrow> pychar \<Rightarrow> bool" where
  "isalnum U c = (if c < 128 then ascii_alnum c else U c)"

text \<open>\<open>pat in text\<close> for strings: \<open>pat\<close> occurs as a contiguous substring.\<close>

definition startswith :: "pystr \<Rightarrow> pystr \<Rightarrow> bool" where
  "startswith s pat = (take (length pat) s = pat)"

fun contains :: "pystr \<Rightarrow> pystr \<Rightarrow> bool" where
  "contains pat [] = (pat = [])"
| "contains pat (c # cs) = (startswith (c # cs) pat \<or> contains pat cs)"

text \<open>The slice \<open>s[i:j]\<close> for \<open>0 \<le> i \<le> j\<close>.\<close>

definition slice :: "pystr \<Rightarrow> nat \<Rightarrow> nat \<Rightarrow> pystr" where
  "slice s i j = take (j - i) (drop i s)"

section \<open>Link resolver\<close>

subsection \<open>The pattern \<open>http://xhslink\.com/[a-zA-Z0-9/]+\b\<close>\<close>

definition XHS_PREFIX :: pystr where
  "XHS_PREFIX = ustr ''http://xhslink.com/''"

definition XHS_MARKER :: pystr where
  "XHS_MARKER = ustr ''xhslink.com''"

text \<open>The character class \<open>[a-zA-Z0-9/]\<close> (no flags: ASCII ranges only).\<close>

definition in_class :: "pychar \<Rightarrow> bool" where
  "in_class c = ((97 \<le> c \<and> c \<le> 122) \<or> (65 \<le> c \<and> c \<le> 90) \<or> (48 \<le> c \<and> c \<le> 57) \<or> c = 47)"

text \<open>\<open>\w\<close> of a \<open>str\<close> pattern: alphanumeric or underscore.\<close>

definition is_word :: "(pychar \<Rightarrow> bool) \<Rightarrow> pychar \<Rightarrow> bool" where
  "is_word U c = (isalnum U c \<or> c = 95)"

text \<open>
  \<open>\b\<close> tested right after the character \<open>p\<close> with \<open>rest\<close> still to read: exactly one
  of the two neighbours is a word character, the end of the text counting as a non-word.
\<close>

definition boundary_after :: "(pychar \<Rightarrow> bool) \<Rightarrow> pychar \<Rightarrow> pystr \<Rightarrow> bool" where
  "boundary_after U p rest =
     (is_word U p \<noteq> (case rest of [] \<Rightarrow> False | c # _ \<Rightarrow> is_word U c))"

text \<open>
  The tail \<open>[a-zA-Z0-9/]*\b\<close> of the pattern after one class character \<open>p\<close> has been
  consumed.  The repetition is greedy: the engine first consumes one more class
  character and tries the rest of the pattern; only when that fails does it backtrack
  and test \<open>\b\<close> at the current position.  The result is the number of further
  characters consumed.
\<close>

fun match_run :: "(pychar \<Rightarrow> bool) \<Rightarrow> pychar \<Rightarrow> pystr \<Rightarrow> nat option" where
  "match_run U p [] = (if boundary_after U p [] then Some 0 else None)"
| "match_run U p (c # cs) =
     (if in_class c then
        (case match_run U c cs of
           Some k \<Rightarrow> Some (Suc k)
         | None \<Rightarrow> if boundary_after U p (c # cs) then Some 0 else None)
      else if boundary_after U p (c # cs) then Some 0 else None)"

text \<open>One match attempt anchored at the head of \<open>s\<close>; the result is the match length.\<close>

definition match_here :: "(pychar \<Rightarrow> bool) \<Rightarrow> pystr \<Rightarrow> nat option" where
  "match_here U s =
     (if startswith s XHS_PREFIX then
        (case drop (length XHS_PREFIX) s of
           [] \<Rightarrow> None
         | c # cs \<Rightarrow>
             if in_class c
             then map_option (\<lambda>k. length XHS_PREFIX + 1 + k) (match_run U c cs)
             else None)
      else None)"

text \<open>
  \<open>re.findall\<close>: scan left to right; after a (non-empty) match the scan resumes
  behind it, after a failed attempt one character further.
\<close>

function findall :: "(pychar \<Rightarrow> bool) \<Rightarrow> pystr \<Rightarrow> pystr list" where
  "findall U [] = []"
| "findall U (c # cs) =
     (case match_here U (c # cs) of
        Some n \<Rightarrow> take n (c # cs) # findall U (drop n (c # cs))
      | None \<Rightarrow> findall U cs)"
  by pat_completeness auto
termination
  by (relation "measure (\<lambda>(U, s). length s)")
    (auto simp: match_here_def split: if_splits list.splits)

text \<open>\<open>RedbookScraper.extract_url\<close>: \<open>urls[0] if urls else None\<close>.\<close>

definition extract_url :: "(pychar \<Rightarrow> bool) \<Rightarrow> pystr \<Rightarrow> pystr option" where
  "extract_url U text = (case findall U text of [] \<Rightarrow> None | u # _ \<Rightarrow> Some u)"

text \<open>
  The resolution step of \<open>extract_content\<close> and of \<open>main\<close>:
  \<^verbatim>\<open>url = scraper.extract_url(text) if 'xhslink.com' in text else text\<close> followed by
  \<^verbatim>\<open>if not url:\<close>, which rejects both \<open>None\<close> and the empty string.
\<close>

datatype resolution_error = NotFound

definition url_expr :: "(pychar \<Rightarrow> bool) \<Rightarrow> pystr \<Rightarrow> pystr option" where
  "url_expr U text = (if contains XHS_MARKER text then extract_url U text else Some text)"

definition resolve :: "(pychar \<Rightarrow> bool) \<Rightarrow> pystr \<Rightarrow> resolution_error + pystr" where
  "resolve U text =
     (case url_expr U text of
        None \<Rightarrow> Inl NotFound
      | Some url \<Rightarrow> if url = [] then Inl NotFound else Inr url)"

subsection \<open>What the specification calls a well-formed short link\<close>

text \<open>
  Stated on positions of the whole text, independently of the matcher: the substring
  \<open>text[i:j]\<close> is the literal prefix followed by at least one class character, and
  position \<open>j\<close> is a word boundary of the text.
\<close>

definition word_at :: "(pychar \<Rightarrow> bool) \<Rightarrow> pystr \<Rightarrow> nat \<Rightarrow> bool" where
  "word_at U text k = (k < length text \<and> is_word U (text ! k))"

definition word_boundary :: "(pychar \<Rightarrow> bool) \<Rightarrow> pystr \<Rightarrow> nat \<Rightarrow> bool" where
  "word_boundary U text j = ((0 < j \<and> word_at U text (j - 1)) \<noteq> word_at U text j)"

definition is_match :: "(pychar \<Rightarrow> bool) \<Rightarrow> pystr \<Rightarrow> nat \<Rightarrow> nat \<Rightarrow> bool" where
  "is_match U text i j =
     (i + length XHS_PREFIX < j \<and> j \<le> length text \<and>
      slice text i (i + length XHS_PREFIX) = XHS_PREFIX \<and>
      list_all in_class (slice text (i + length XHS_PREFIX) j) \<and>
      word_boundary U text j)"


section \<open>Content extractor\<close>

subsection \<open>The parsed page\<close>

text \<open>
  \<open>BeautifulSoup(response.text, 'html.parser')\<close> yields a tree of tags, text nodes and
  other strings (comments, doctypes) that \<open>get_text\<close> leaves out.  A tag carries its
  name, its attribute dictionary and its children; the soup is the list of top-level
  nodes.  The parser itself is a parameter of the model (\<open>html_parser\<close> below).
\<close>

datatype node =
    Tag pystr "pystr \<rightharpoonup> pystr" "node list"
  | NavigableString pystr
  | Comment pystr

fun tag_attrs :: "node \<Rightarrow> (pystr \<rightharpoonup> pystr)" where
  "tag_attrs (Tag nm a cs) = a"
| "tag_attrs (NavigableString s) = Map.empty"
| "tag_attrs (Comment s) = Map.empty"

fun tag_contents :: "node \<Rightarrow> node list" where
  "tag_contents (Tag nm a cs) = cs"
| "tag_contents (NavigableString s) = []"
| "tag_contents (Comment s) = []"

text \<open>Document order: a node comes before its children, siblings from left to right.\<close>

fun preorder :: "node \<Rightarrow> node list" where
  "preorder (Tag nm a cs) = Tag nm a cs # concat (map preorder cs)"
| "preorder (NavigableString s) = [NavigableString s]"
| "preorder (Comment s) = [Comment s]"

definition descendants :: "node list \<Rightarrow> node list" where
  "descendants ns = concat (map preorder ns)"

text \<open>\<open>find_all(name, {key: val})\<close> and \<open>find\<close>, its first result or \<open>None\<close>.\<close>

fun matches_tag :: "pystr \<Rightarrow> pystr \<Rightarrow> pystr \<Rightarrow> node \<Rightarrow> bool" where
  "matches_tag nm key val (Tag nm' a cs) = (nm' = nm \<and> a key = Some val)"
| "matches_tag nm key val (NavigableString s) = False"
| "matches_tag nm key val (Comment s) = False"

definition find_all :: "node list \<Rightarrow> pystr \<Rightarrow> pystr \<Rightarrow> pystr \<Rightarrow> node list" where
  "find_all soup nm key val = filter (matches_tag nm key val) (descendants soup)"

definition find :: "node list \<Rightarrow> pystr \<Rightarrow> pystr \<Rightarrow> pystr \<Rightarrow> node option" where
  "find soup nm key val = (case find_all soup nm key val of [] \<Rightarrow> None | t # _ \<Rightarrow> Some t)"

subsection \<open>String helpers of the extractor\<close>

text \<open>
  \<open>s.replace(old, new)\<close>: non-overlapping occurrences of \<open>old\<close> are replaced from left
  to right in one pass; an empty \<open>old\<close> matches before every character and at the end.
\<close>

function replace :: "pystr \<Rightarrow> pystr \<Rightarrow> pystr \<Rightarrow> pystr" where
  "replace s [] new = new @ concat (map (\<lambda>c. c # new) s)"
| "replace [] (p # ps) new = []"
| "replace (c # cs) (p # ps) new =
     (if startswith (c # cs) (p # ps)
      then new @ replace (drop (length (p # ps)) (c # cs)) (p # ps) new
      else c # replace cs (p # ps) new)"
  by pat_completeness auto
termination
  by (relation "measure (\<lambda>(s, old, new). length s)") auto

text \<open>\<open>str.isspace\<close> per character, and \<open>str.strip()\<close>.\<close>

definition py_isspace :: "pychar \<Rightarrow> bool" where
  "py_isspace c = ((9 \<le> c \<and> c \<le> 13) \<or> (28 \<le> c \<and> c \<le> 32) \<or> c = 133 \<or> c = 160 \<or>
     c = 5760 \<or> (8192 \<le> c \<and> c \<le> 8202) \<or> c = 8232 \<or> c = 8233 \<or> c = 8239 \<or>
     c = 8287 \<or> c = 12288)"

definition strip :: "pystr \<Rightarrow> pystr" where
  "strip s = rev (dropWhile py_isspace (rev (dropWhile py_isspace s)))"

text \<open>
  \<open>tag.get_text(strip=True)\<close>: the text nodes below the tag in document order, each
  stripped, the empty ones dropped, joined without separator.
\<close>

fun node_string :: "node \<Rightarrow> pystr option" where
  "node_string (NavigableString s) = Some s"
| "node_string (Tag nm a cs) = None"
| "node_string (Comment s) = None"

definition get_text_strip :: "node \<Rightarrow> pystr" where
  "get_text_strip t =
     concat (filter (\<lambda>s. s \<noteq> [])
       (map strip (List.map_filter node_string (descendants (tag_contents t)))))"

subsection \<open>Constants of the page layout\<close>

definition META :: pystr where "META = ustr ''meta''"
definition DIV :: pystr where "DIV = ustr ''div''"
definition NAME :: pystr where "NAME = ustr ''name''"
definition ID :: pystr where "ID = ustr ''id''"
definition CONTENT :: pystr where "CONTENT = ustr ''content''"
definition OG_TITLE :: pystr where "OG_TITLE = ustr ''og:title''"
definition OG_IMAGE :: pystr where "OG_IMAGE = ustr ''og:image''"
definition DETAIL_DESC :: pystr where "DETAIL_DESC = ustr ''detail-desc''"

text \<open>\<open>' - '\<close> followed by U+5C0F U+7EA2 U+4E66, the branding string of the site.\<close>

definition BRAND :: pystr where
  "BRAND = [32, 45, 32, 23567, 32418, 20070]"

text \<open>The sentinels: U+6807 U+9898 U+672A U+627E U+5230 and U+6B63 U+6587 U+672A U+627E U+5230.\<close>

definition TITLE_NOT_FOUND :: pystr where
  "TITLE_NOT_FOUND = [26631, 39064, 26410, 25214, 21040]"

definition BODY_NOT_FOUND :: pystr where
  "BODY_NOT_FOUND = [27491, 25991, 26410, 25214, 21040]"

subsection \<open>\<open>get_content\<close>\<close>

text \<open>
  The exceptions the program meets.  \<open>RequestException\<close> stands for every instance of
  \<open>requests.RequestException\<close> (connection errors, timeouts, \<open>HTTPError\<close>, the URL
  errors of \<open>requests\<close>); \<open>OtherException name\<close> for an exception of any other class,
  such as the \<open>LocationParseError\<close> of urllib3 that \<open>requests.get\<close> lets through for
  a host it cannot parse, or the \<open>AssertionError\<close> of \<open>html.parser\<close> on malformed
  markup.
\<close>

datatype py_exception = RequestException | KeyError | OSError | OtherException pystr

record redbook_content =
  title :: pystr
  content :: pystr
  images :: "pystr list"
  url :: pystr
  local_images :: "pystr list option"

text \<open>
  \<open>title_meta['content'].replace(' - ...', '') if title_meta else sentinel\<close>: a tag is
  always truthy, and subscripting a tag raises \<open>KeyError\<close> when the attribute is absent.
\<close>

definition title_text :: "node list \<Rightarrow> py_exception + pystr" where
  "title_text soup =
     (case find soup META NAME OG_TITLE of
        None \<Rightarrow> Inr TITLE_NOT_FOUND
      | Some title_meta \<Rightarrow>
          (case tag_attrs title_meta CONTENT of
             None \<Rightarrow> Inl KeyError
           | Some v \<Rightarrow> Inr (replace v BRAND [])))"

definition content_text :: "node list \<Rightarrow> pystr" where
  "content_text soup =
     (case find soup DIV ID DETAIL_DESC of
        None \<Rightarrow> BODY_NOT_FOUND
      | Some content_div \<Rightarrow> get_text_strip content_div)"

text \<open>The loop over \<open>img_metas\<close>, appending to \<open>images\<close>.\<close>

fun collect_images :: "node list \<Rightarrow> pystr list \<Rightarrow> pystr list" where
  "collect_images [] imgs = imgs"
| "collect_images (img_meta # rest) imgs =
     collect_images rest
       (case tag_attrs img_meta CONTENT of
          Some v \<Rightarrow> imgs @ [v]
        | None \<Rightarrow> imgs)"

definition og_images :: "node list \<Rightarrow> pystr list" where
  "og_images soup = collect_images (find_all soup META NAME OG_IMAGE) []"

text \<open>
  What the specification calls the images of a page: in document order, the content
  value of every \<open>meta\<close> element named \<open>og:image\<close> that has one; an element without
  a content value contributes nothing.
\<close>

definition og_image_values :: "node list \<Rightarrow> pystr list" where
  "og_image_values soup =
     concat (map (\<lambda>n. if matches_tag META NAME OG_IMAGE n
                       then (case tag_attrs n CONTENT of Some v \<Rightarrow> [v] | None \<Rightarrow> [])
                       else [])
       (descendants soup))"

text \<open>
  The world outside the program.  \<open>http_get\<close> is \<open>requests.get\<close> with the scraper's
  headers: the exception it raises (a \<open>RequestException\<close> or another one), or the
  final response.  \<open>response.raise_for_status()\<close> raises \<open>HTTPError\<close>, a
  \<open>RequestException\<close>, exactly for the status codes 400 to 599.  \<open>html_parser\<close> is
  \<open>BeautifulSoup(text, 'html.parser')\<close>: the exception it raises, or the parsed page.
  Within one run the answer to a request is taken to depend on its URL alone, and the
  success of \<open>makedirs\<close> and \<open>open\<close> on the path alone.
\<close>

record response =
  status_code :: nat
  body :: pystr

record env =
  unicode_alnum :: "pychar \<Rightarrow> bool"
  http_get :: "pystr \<Rightarrow> py_exception + response"
  html_parser :: "pystr \<Rightarrow> py_exception + node list"
  urlparse_path :: "pystr \<Rightarrow> pystr"
  timestamp :: pystr
  makedirs_ok :: "pystr \<Rightarrow> bool"
  open_ok :: "pystr \<Rightarrow> bool"

definition raise_for_status :: "response \<Rightarrow> bool" where
  "raise_for_status r = (400 \<le> status_code r \<and> status_code r < 600)"

text \<open>The body of the \<open>try\<close> block of \<open>get_content\<close>, with the exception it ends in.\<close>

definition try_get_content :: "env \<Rightarrow> pystr \<Rightarrow> py_exception + redbook_content" where
  "try_get_content e u =
     (case http_get e u of
        Inl exc \<Rightarrow> Inl exc
      | Inr r \<Rightarrow>
          if raise_for_status r then Inl RequestException
          else
            (case html_parser e (body r) of
               Inl exc \<Rightarrow> Inl exc
             | Inr soup \<Rightarrow>
                 (case title_text soup of
                    Inl exc \<Rightarrow> Inl exc
                  | Inr title_text' \<Rightarrow>
                      Inr \<lparr>title = title_text', content = content_text soup,
                           images = og_images soup, url = u, local_images = None\<rparr>)))"

text \<open>
  The HTTP services (\<open>redbook_api.py\<close>, \<open>test_api.py\<close>, \<open>api/index.py\<close>) turn a
  \<open>RequestException\<close> into \<open>HTTPException(400)\<close> and any other exception into
  \<open>HTTPException(500)\<close>; the command-line scraper prints and returns \<open>None\<close>.
\<close>

datatype detail = NoValidLink | RequestFailed | ParseFailed

datatype api_error = HTTPException nat detail | Unhandled py_exception

definition get_content :: "env \<Rightarrow> pystr \<Rightarrow> api_error + redbook_content" where
  "get_content e u =
     (case try_get_content e u of
        Inl exc \<Rightarrow>
          if exc = RequestException then Inl (HTTPException 400 RequestFailed)
          else Inl (HTTPException 500 ParseFailed)
      | Inr result \<Rightarrow> Inr result)"

definition get_content_cli :: "env \<Rightarrow> pystr \<Rightarrow> redbook_content option" where
  "get_content_cli e u =
     (case try_get_content e u of Inl exc \<Rightarrow> None | Inr result \<Rightarrow> Some result)"


section \<open>Image persister\<close>

subsection \<open>Names and paths\<close>

text \<open>
  The generator \<open>x for x in title if x.isalnum() or x in (' ', '-', '_')\<close>, joined.
\<close>

definition keep_char :: "(pychar \<Rightarrow> bool) \<Rightarrow> pychar \<Rightarrow> bool" where
  "keep_char U x = (isalnum U x \<or> x = 32 \<or> x = 45 \<or> x = 95)"

definition safe_title :: "(pychar \<Rightarrow> bool) \<Rightarrow> pystr \<Rightarrow> pystr" where
  "safe_title U t = concat (map (\<lambda>x. if keep_char U x then [x] else []) t)"

text \<open>\<open>str(index)\<close> for a non-negative integer.\<close>

fun str_nat :: "nat \<Rightarrow> pystr" where
  "str_nat n = (if n < 10 then [48 + n] else str_nat (n div 10) @ [48 + n mod 10])"

declare str_nat.simps [simp del]

text \<open>\<open>os.path.join(a, b)\<close> on POSIX.\<close>

definition path_join :: "pystr \<Rightarrow> pystr \<Rightarrow> pystr" where
  "path_join a b =
     (if startswith b [47] then b
      else if a = [] \<or> last a = 47 then a @ b
      else a @ [47] @ b)"

text \<open>
  \<open>os.path.splitext(p)[1]\<close>: the part of the last path component from its last dot
  on, empty when there is no dot or only dots precede it.
\<close>

definition basename :: "pystr \<Rightarrow> pystr" where
  "basename p = rev (takeWhile (\<lambda>c. c \<noteq> 47) (rev p))"

definition splitext_ext :: "pystr \<Rightarrow> pystr" where
  "splitext_ext p =
     (let b = basename p;
          e = rev (takeWhile (\<lambda>c. c \<noteq> 46) (rev b))
      in if length e < length b \<and> (\<exists>c \<in> set (take (length b - length e - 1) b). c \<noteq> 46)
         then 46 # e else [])"

definition IMAGE_PFX :: pystr where "IMAGE_PFX = ustr ''image_''"
definition DOT_JPG :: pystr where "DOT_JPG = ustr ''.jpg''"
definition INFO_JSON :: pystr where "INFO_JSON = ustr ''info.json''"
definition REDBOOK_CONTENT_PFX :: pystr where "REDBOOK_CONTENT_PFX = ustr ''redbook_content_''"

subsection \<open>The file system\<close>

text \<open>
  Directories that exist and the files written, each with what was written to it: the
  bytes of an image, or the record that \<open>json.dump\<close> serialised.  Whether
  \<open>os.makedirs\<close> and \<open>open\<close> succeed on a path is decided by the environment.
\<close>

datatype file_data = Bytes pystr | InfoJson redbook_content

record filesystem =
  dirs :: "pystr set"
  files :: "pystr \<rightharpoonup> file_data"

subsection \<open>\<open>download_image\<close>\<close>

text \<open>
  Every exception inside \<open>download_image\<close> is caught there and turned into \<open>None\<close>:
  the failed request, the error status, the failed \<open>open\<close>.
\<close>

definition image_filename :: "env \<Rightarrow> pystr \<Rightarrow> nat \<Rightarrow> pystr" where
  "image_filename e u index =
     (let ext = splitext_ext (urlparse_path e u);
          ext' = (if ext = [] then DOT_JPG else ext)
      in IMAGE_PFX @ str_nat index @ ext')"

definition download_image ::
  "env \<Rightarrow> filesystem \<Rightarrow> pystr \<Rightarrow> pystr \<Rightarrow> nat \<Rightarrow> pystr option \<times> filesystem" where
  "download_image e fs u folder_path index =
     (case http_get e u of
        Inl exc \<Rightarrow> (None, fs)
      | Inr r \<Rightarrow>
          if raise_for_status r then (None, fs)
          else
            let filename = image_filename e u index;
                filepath = path_join folder_path filename
            in if open_ok e filepath
               then (Some filename, fs\<lparr>files := (files fs)(filepath \<mapsto> Bytes (body r))\<rparr>)
               else (None, fs))"

text \<open>
  The loop \<open>for i, img_url in enumerate(result['images'], 1)\<close>.  The HTTP service
  records \<open>os.path.join(folder_name, filename)\<close>, the command-line scraper the bare
  \<open>filename\<close>; \<open>entry\<close> is that choice.
\<close>

fun download_loop ::
  "env \<Rightarrow> pystr \<Rightarrow> (pystr \<Rightarrow> pystr) \<Rightarrow> nat \<Rightarrow> pystr list \<Rightarrow> pystr list \<times> filesystem
     \<Rightarrow> pystr list \<times> filesystem" where
  "download_loop e folder entry i [] st = st"
| "download_loop e folder entry i (img_url # rest) (downloaded, fs) =
     (case download_image e fs img_url folder i of
        (Some filename, fs') \<Rightarrow>
          download_loop e folder entry (Suc i) rest (downloaded @ [entry filename], fs')
      | (None, fs') \<Rightarrow>
          download_loop e folder entry (Suc i) rest (downloaded, fs'))"

subsection \<open>\<open>extract_content\<close>, the handler of \<open>POST /api/extract\<close>\<close>

record request =
  req_url :: pystr
  save_images :: bool

definition folder_name_api :: "env \<Rightarrow> pystr \<Rightarrow> pystr" where
  "folder_name_api e t =
     REDBOOK_CONTENT_PFX @ timestamp e @ [95] @ take 30 (safe_title (unicode_alnum e) t)"

text \<open>
  \<open>redbook_api.py\<close> and \<open>test_api.py\<close>.  The test \<open>if not result\<close> after
  \<open>get_content\<close> never fires: \<open>get_content\<close> returns a four-key dictionary or raises.
  An \<open>OSError\<close> of \<open>os.makedirs\<close> or of the \<open>open\<close> of \<open>info.json\<close> is not caught.
\<close>

definition extract_content ::
  "env \<Rightarrow> filesystem \<Rightarrow> request \<Rightarrow> (api_error + redbook_content) \<times> filesystem" where
  "extract_content e fs req =
     (case resolve (unicode_alnum e) (req_url req) of
        Inl NotFound \<Rightarrow> (Inl (HTTPException 400 NoValidLink), fs)
      | Inr u \<Rightarrow>
          (case get_content e u of
             Inl err \<Rightarrow> (Inl err, fs)
           | Inr result \<Rightarrow>
               if save_images req \<and> images result \<noteq> [] then
                 let folder_name = folder_name_api e (title result) in
                 if \<not> makedirs_ok e folder_name then (Inl (Unhandled OSError), fs)
                 else
                   let fs1 = fs\<lparr>dirs := insert folder_name (dirs fs)\<rparr>;
                       (downloaded_images, fs2) =
                         download_loop e folder_name (path_join folder_name) 1
                           (images result) ([], fs1);
                       result' = result\<lparr>local_images := Some downloaded_images\<rparr>;
                       info = path_join folder_name INFO_JSON
                   in if open_ok e info
                      then (Inr result', fs2\<lparr>files := (files fs2)(info \<mapsto> InfoJson result')\<rparr>)
                      else (Inl (Unhandled OSError), fs2)
               else (Inr result, fs)))"

text \<open>\<open>api/index.py\<close>: the same handler without the persistence step.\<close>

definition extract_content_index ::
  "env \<Rightarrow> filesystem \<Rightarrow> request \<Rightarrow> (api_error + redbook_content) \<times> filesystem" where
  "extract_content_index e fs req =
     (case resolve (unicode_alnum e) (req_url req) of
        Inl NotFound \<Rightarrow> (Inl (HTTPException 400 NoValidLink), fs)
      | Inr u \<Rightarrow>
          (case get_content e u of
             Inl err \<Rightarrow> (Inl err, fs)
           | Inr result \<Rightarrow> (Inr result, fs)))"

subsection \<open>\<open>process_url\<close> of the command-line scraper\<close>

definition folder_name_cli :: "env \<Rightarrow> pystr \<Rightarrow> pystr \<Rightarrow> pystr" where
  "folder_name_cli e base_folder t =
     path_join base_folder (take 50 (safe_title (unicode_alnum e) t))"



section \<open>Auxiliary notions and sample inputs\<close>

text \<open>
  \<open>run_ok U p s k\<close>: after the class character \<open>p\<close>, the next \<open>k\<close> characters of \<open>s\<close>
  are class characters and \<open>\b\<close> holds behind them.
\<close>

definition run_ok :: "(pychar \<Rightarrow> bool) \<Rightarrow> pychar \<Rightarrow> pystr \<Rightarrow> nat \<Rightarrow> bool" where
  "run_ok U p s k = (k \<le> length s \<and> list_all in_class (take k s) \<and>
      boundary_after U (last (p # take k s)) (drop k s))"

text \<open>
  \<open>request_fails e u\<close>: the request for \<open>u\<close> ends in a \<open>RequestException\<close>, raised
  by \<open>requests.get\<close> itself or by \<open>raise_for_status\<close> on a 4xx or 5xx answer.
  \<open>download_ok e folder index u\<close>: nothing raises inside \<open>download_image\<close>.
  \<open>response_body e u\<close>: the bytes of the response to the request for \<open>u\<close>.
  \<open>downloaded e folder entry imgs\<close>: the entries of the downloads that succeed, in the
  order of \<open>imgs\<close>, the image at position \<open>j\<close> (from 0) being numbered \<open>j + 1\<close>.
\<close>

definition download_ok :: "env \<Rightarrow> pystr \<Rightarrow> nat \<Rightarrow> pystr \<Rightarrow> bool" where
  "download_ok e folder_path index u =
     (case http_get e u of
        Inl exc \<Rightarrow> False
      | Inr r \<Rightarrow> \<not> raise_for_status r \<and>
                  open_ok e (path_join folder_path (image_filename e u index)))"

definition request_fails :: "env \<Rightarrow> pystr \<Rightarrow> bool" where
  "request_fails e u =
     (case http_get e u of
        Inl exc \<Rightarrow> exc = RequestException
      | Inr r \<Rightarrow> 400 \<le> status_code r \<and> status_code r < 600)"


definition downloaded :: "env \<Rightarrow> pystr \<Rightarrow> (pystr \<Rightarrow> pystr) \<Rightarrow> pystr list \<Rightarrow> pystr list" where
  "downloaded e folder_path entry imgs =
     map (\<lambda>j. entry (image_filename e (imgs ! j) (Suc j)))
       (filter (\<lambda>j. download_ok e folder_path (Suc j) (imgs ! j)) [0..<length imgs])"

text \<open>
  A fragment of the Unicode table for the examples: the CJK unified ideographs
  U+4E00 to U+9FFF are letters.
\<close>

definition sample_table :: "pychar \<Rightarrow> bool" where
  "sample_table c = (19968 \<le> c \<and> c \<le> 40959)"

definition share_text :: pystr where
  "share_text = ustr ''64 http://xhslink.com/a/AbC9/ now''"

definition direct_url :: pystr where
  "direct_url = ustr ''https://www.xiaohongshu.com/explore/1''"

definition secure_short_link :: pystr where
  "secure_short_link = ustr ''https://xhslink.com/abc''"

text \<open>
  A page in the shape the scraper expects, with one image element that has no content
  value, and a world in which the page and the first image download, while the second
  image answers 404.
\<close>

definition note_title :: pystr where
  "note_title = ustr ''My Note'' @ BRAND"

definition image_url_1 :: pystr where
  "image_url_1 = ustr ''https://ci.xiaohongshu.com/a.png''"

definition image_url_2 :: pystr where
  "image_url_2 = ustr ''https://ci.xiaohongshu.com/b''"

definition sample_page :: "node list" where
  "sample_page =
     [Tag (ustr ''html'') Map.empty
        [Tag (ustr ''head'') Map.empty
           [Tag META [NAME \<mapsto> OG_TITLE, CONTENT \<mapsto> note_title] [],
            Tag META [NAME \<mapsto> OG_IMAGE, CONTENT \<mapsto> image_url_1] [],
            Tag META [NAME \<mapsto> OG_IMAGE] [],
            Tag META [NAME \<mapsto> OG_IMAGE, CONTENT \<mapsto> image_url_2] []],
         Tag (ustr ''body'') Map.empty
           [Tag DIV [ID \<mapsto> DETAIL_DESC]
              [NavigableString (ustr '' hello world '')]]]]"

definition page_title_without_content :: "node list" where
  "page_title_without_content = [Tag META [NAME \<mapsto> OG_TITLE] []]"

definition mid_brand_title :: pystr where
  "mid_brand_title = [65] @ BRAND @ [32, 66]"

definition mid_brand_meta :: node where
  "mid_brand_meta = Tag META [NAME \<mapsto> OG_TITLE, CONTENT \<mapsto> mid_brand_title] []"

definition page_mid_brand :: "node list" where
  "page_mid_brand = [mid_brand_meta]"

definition sample_env :: env where
  "sample_env =
     \<lparr>unicode_alnum = sample_table,
      http_get = (\<lambda>u. if u = direct_url then Inr \<lparr>status_code = 200, body = []\<rparr>
                      else if u = image_url_1 then Inr \<lparr>status_code = 200, body = [137, 80, 78, 71]\<rparr>
                      else if u = image_url_2 then Inr \<lparr>status_code = 404, body = []\<rparr>
                      else Inl RequestException),
      html_parser = (\<lambda>t. Inr sample_page),
      urlparse_path = (\<lambda>u. if u = image_url_1 then ustr ''/a.png'' else ustr ''/b''),
      timestamp = ustr ''20240101_120000'',
      makedirs_ok = (\<lambda>p. True),
      open_ok = (\<lambda>p. True)\<rparr>"

definition sample_response :: response where
  "sample_response = \<lparr>status_code = 200, body = []\<rparr>"

definition env_title_without_content :: env where
  "env_title_without_content =
     \<lparr>unicode_alnum = sample_table,
      http_get = (\<lambda>u. Inr sample_response),
      html_parser = (\<lambda>t. Inr page_title_without_content),
      urlparse_path = (\<lambda>u. u),
      timestamp = ustr ''20240101_120000'',
      makedirs_ok = (\<lambda>p. True),
      open_ok = (\<lambda>p. True)\<rparr>"

definition env_mid_brand :: env where
  "env_mid_brand = env_title_without_content\<lparr>html_parser := (\<lambda>t. Inr page_mid_brand)\<rparr>"

definition empty_fs :: filesystem where
  "empty_fs = \<lparr>dirs = {}, files = Map.empty\<rparr>"


definition sample_request :: request where
  "sample_request = \<lparr>req_url = direct_url, save_images = True\<rparr>"

definition sample_folder :: pystr where
  "sample_folder = ustr ''redbook_content_20240101_120000_My Note''"

definition env_not_modified :: env where
  "env_not_modified =
     sample_env\<lparr>http_get := (\<lambda>u. Inr \<lparr>status_code = 304, body = []\<rparr>),
                html_parser := (\<lambda>t. Inr [])\<rparr>"








definition env_location_parse_error :: env where
  "env_location_parse_error =
     sample_env\<lparr>http_get := (\<lambda>u. Inl (OtherException (ustr ''LocationParseError'')))\<rparr>"

definition env_parser_raises :: env where
  "env_parser_raises =
     sample_env\<lparr>html_parser := (\<lambda>t. Inl (OtherException (ustr ''AssertionError'')))\<rparr>"

definition long_title :: pystr where
  "long_title = ustr ''2024: ten/eleven places you *must* see - part_1 (updated, with maps & notes)''"

definition failing_request :: request where
  "failing_request = \<lparr>req_url = image_url_2, save_images = True\<rparr>"

definition sentinel_result :: redbook_content where
  "sentinel_result =
     \<lparr>title = TITLE_NOT_FOUND, content = BODY_NOT_FOUND, images = [], url = direct_url,
      local_images = None\<rparr>"

definition mid_brand_result :: redbook_content where
  "mid_brand_result =
     \<lparr>title = [65, 32, 66], content = BODY_NOT_FOUND, images = [], url = direct_url,
      local_images = None\<rparr>"

section \<open>Properties of the link resolver\<close>

lemma run_ok_0: "run_ok U p s 0 = boundary_after U p s"
  by (simp add: run_ok_def)

lemma run_ok_Suc: "run_ok U p (c # cs) (Suc k) = (in_class c \<and> run_ok U c cs k)"
  by (auto simp: run_ok_def)

lemma run_ok_Nil: "run_ok U p [] k = (k = 0 \<and> boundary_after U p [])"
  by (auto simp: run_ok_def)

lemma match_run_None: "match_run U p s = None \<longleftrightarrow> (\<forall>k. \<not> run_ok U p s k)"
proof (induction s arbitrary: p)
  case Nil
  show ?case by (auto simp: run_ok_Nil)
next
  case (Cons c cs)
  have split: "(\<forall>k. \<not> run_ok U p (c # cs) k) \<longleftrightarrow>
      (\<not> boundary_after U p (c # cs) \<and> (\<forall>k. \<not> run_ok U p (c # cs) (Suc k)))"
    by (metis run_ok_0 not0_implies_Suc)
  show ?case
    unfolding split run_ok_Suc using Cons.IH [of c]
    by (auto split: option.splits)
qed

lemma match_run_Some:
  "match_run U p s = Some k \<Longrightarrow> run_ok U p s k \<and> (\<forall>m. run_ok U p s m \<longrightarrow> m \<le> k)"
proof (induction s arbitrary: p k)
  case Nil
  then show ?case by (auto simp: run_ok_Nil split: if_splits)
next
  case (Cons c cs)
  show ?case
  proof (cases "in_class c")
    case False
    with Cons.prems have "k = 0" "boundary_after U p (c # cs)"
      by (auto split: if_splits)
    moreover have "\<And>m. run_ok U p (c # cs) m \<Longrightarrow> m = 0"
      using False by (case_tac m) (auto simp: run_ok_Suc)
    ultimately show ?thesis by (auto simp: run_ok_0)
  next
    case True
    show ?thesis
    proof (cases "match_run U c cs")
      case None
      with Cons.prems True have k: "k = 0" "boundary_after U p (c # cs)"
        by (auto split: if_splits)
      from None have "\<And>m. \<not> run_ok U c cs m" by (simp add: match_run_None)
      then have "\<And>m. run_ok U p (c # cs) m \<Longrightarrow> m = 0"
        by (case_tac m) (auto simp: run_ok_Suc)
      with k show ?thesis by (auto simp: run_ok_0)
    next
      case (Some k')
      with Cons.prems True have k: "k = Suc k'" by simp
      from Cons.IH [OF Some] have ih: "run_ok U c cs k'" "\<And>m. run_ok U c cs m \<Longrightarrow> m \<le> k'"
        by auto
      have "\<And>m. run_ok U p (c # cs) m \<Longrightarrow> m \<le> Suc k'"
        using ih(2) by (case_tac m) (auto simp: run_ok_Suc)
      with ih(1) True k show ?thesis by (auto simp: run_ok_Suc)
    qed
  qed
qed

lemma length_XHS_PREFIX: "length XHS_PREFIX = 19"
  by (simp add: XHS_PREFIX_def ustr_def)

lemma word_at_drop: "word_at U text k = (case drop k text of [] \<Rightarrow> False | c # _ \<Rightarrow> is_word U c)"
proof (cases "k < length text")
  case True
  then have "drop k text = text ! k # drop (Suc k) text"
    by (simp add: Cons_nth_drop_Suc)
  with True show ?thesis by (simp add: word_at_def)
next
  case False
  then show ?thesis by (simp add: word_at_def)
qed

lemma nth_last_take: "k \<le> length cs \<Longrightarrow> (c # cs) ! k = last (c # take k cs)"
proof (induction cs arbitrary: c k)
  case Nil
  then show ?case by simp
next
  case (Cons a cs)
  then show ?case by (cases k) auto
qed

lemma is_match_alt:
  "is_match U text i j \<longleftrightarrow>
     startswith (drop i text) XHS_PREFIX \<and>
     (\<exists>c cs k. drop (length XHS_PREFIX) (drop i text) = c # cs \<and> in_class c \<and>
        run_ok U c cs k \<and> j = i + (length XHS_PREFIX + 1 + k))"
  (is "?L \<longleftrightarrow> ?R")
proof -
  define P where "P = length XHS_PREFIX"
  have core: "list_all in_class (slice text (i + P) j) \<and> word_boundary U text j \<longleftrightarrow>
      in_class c \<and> run_ok U c cs k"
    if d: "drop (i + P) text = c # cs" and j: "j = Suc (i + P + k)" and kl: "k \<le> length cs"
    for c cs k
  proof -
    have len: "length text = i + P + Suc (length cs)"
      using arg_cong [OF d, of length] by simp
    have sl: "slice text (i + P) j = c # take k cs"
      using d j by (simp add: slice_def)
    have dj: "drop j text = drop k cs"
    proof -
      have "drop j text = drop (Suc k) (drop (i + P) text)"
        by (simp add: j add.commute add.left_commute)
      then show ?thesis by (simp add: d)
    qed
    have "text ! (j - 1) = drop (i + P) text ! k"
      using len kl by (simp add: j)
    then have nth: "text ! (j - 1) = last (c # take k cs)"
      using kl by (simp add: d nth_last_take)
    have w1: "word_at U text (j - 1) = is_word U (last (c # take k cs))"
      unfolding word_at_def nth using len kl j by simp
    have wb: "word_boundary U text j = boundary_after U (last (c # take k cs)) (drop k cs)"
    proof -
      have w2: "word_at U text j = (case drop k cs of [] \<Rightarrow> False | x # _ \<Rightarrow> is_word U x)"
        by (simp only: word_at_drop [of U "text" j] dj)
      have "0 < j" using j by simp
      then show ?thesis
        unfolding word_boundary_def w1 w2 boundary_after_def by simp
    qed
    show ?thesis
      unfolding wb sl run_ok_def using kl by auto
  qed
  show ?thesis
  proof
    assume L: ?L
    then have ij: "i + P < j" "j \<le> length text"
      and pre: "slice text i (i + P) = XHS_PREFIX"
      and cw: "list_all in_class (slice text (i + P) j) \<and> word_boundary U text j"
      by (auto simp: is_match_def P_def)
    from pre have sw: "startswith (drop i text) XHS_PREFIX"
      by (simp add: startswith_def slice_def P_def)
    from ij have lt: "i + P < length text" by simp
    define c where "c = text ! (i + P)"
    define cs where "cs = drop (Suc (i + P)) text"
    define k where "k = j - Suc (i + P)"
    have d: "drop (i + P) text = c # cs"
      using lt by (simp add: c_def cs_def Cons_nth_drop_Suc)
    have j: "j = Suc (i + P + k)" using ij by (simp add: k_def)
    have kl: "k \<le> length cs" using ij by (simp add: cs_def k_def)
    from core [OF d j kl] cw have "in_class c" "run_ok U c cs k" by auto
    moreover have "drop P (drop i text) = c # cs"
      using d by (simp add: add.commute)
    ultimately show ?R
      using sw j unfolding P_def by auto
  next
    assume R: ?R
    then obtain c cs k where sw: "startswith (drop i text) XHS_PREFIX"
      and d': "drop P (drop i text) = c # cs" and c: "in_class c"
      and ok: "run_ok U c cs k" and j': "j = i + (P + 1 + k)"
      unfolding P_def by blast
    have d: "drop (i + P) text = c # cs" using d' by (simp add: add.commute)
    have j: "j = Suc (i + P + k)" using j' by simp
    have kl: "k \<le> length cs" using ok by (simp add: run_ok_def)
    have len: "length text = i + P + Suc (length cs)"
      using arg_cong [OF d, of length] by simp
    from core [OF d j kl] c ok
    have cw: "list_all in_class (slice text (i + P) j)" "word_boundary U text j" by auto
    have "slice text i (i + P) = XHS_PREFIX"
      using sw by (simp add: startswith_def slice_def P_def)
    with cw len kl j show ?L
      by (simp add: is_match_def P_def)
  qed
qed

lemma match_here_None: "match_here U (drop i text) = None \<longleftrightarrow> (\<forall>j. \<not> is_match U text i j)"
  unfolding is_match_alt match_here_def
  by (auto split: list.splits simp: match_run_None)

lemma match_here_Some:
  assumes "match_here U (drop i text) = Some n"
  shows "is_match U text i (i + n) \<and> (\<forall>j. is_match U text i j \<longrightarrow> j \<le> i + n)"
proof -
  from assms obtain c cs k where sw: "startswith (drop i text) XHS_PREFIX"
    and d: "drop (length XHS_PREFIX) (drop i text) = c # cs" and c: "in_class c"
    and mr: "match_run U c cs = Some k" and n: "n = length XHS_PREFIX + 1 + k"
    by (auto simp: match_here_def split: if_splits list.splits)
  from match_run_Some [OF mr] have ok: "run_ok U c cs k"
    and mx: "\<And>m. run_ok U c cs m \<Longrightarrow> m \<le> k" by auto
  have "is_match U text i (i + n)"
    unfolding is_match_alt using sw d c ok n by blast
  moreover have "j \<le> i + n" if "is_match U text i j" for j
    using that unfolding is_match_alt using d mx n by auto
  ultimately show ?thesis by blast
qed

lemma findall_Nil: "findall U s = [] \<longleftrightarrow> (\<forall>i. match_here U (drop i s) = None)"
proof (induction U s rule: findall.induct)
  case (1 U)
  show ?case by (simp add: match_here_def startswith_def XHS_PREFIX_def ustr_def)
next
  case (2 U c cs)
  show ?case
  proof (cases "match_here U (c # cs)")
    case None
    have "(\<forall>i. match_here U (drop i (c # cs)) = None) \<longleftrightarrow> (\<forall>i. match_here U (drop i cs) = None)"
      (is "?A \<longleftrightarrow> ?B")
    proof
      assume a: ?A
      show ?B
      proof
        fix i from a have "match_here U (drop (Suc i) (c # cs)) = None" by blast
        then show "match_here U (drop i cs) = None" by simp
      qed
    next
      assume b: ?B
      show ?A
      proof
        fix i show "match_here U (drop i (c # cs)) = None"
          using None b by (cases i) auto
      qed
    qed
    with None 2 show ?thesis by simp
  next
    case (Some n)
    have "\<not> (\<forall>i. match_here U (drop i (c # cs)) = None)"
    proof
      assume "\<forall>i. match_here U (drop i (c # cs)) = None"
      then have "match_here U (drop 0 (c # cs)) = None" by (rule spec)
      with Some show False by simp
    qed
    with Some show ?thesis by simp
  qed
qed

lemma findall_Cons:
  "findall U s = u # us \<Longrightarrow>
   \<exists>i n. (\<forall>i'<i. match_here U (drop i' s) = None) \<and>
         match_here U (drop i s) = Some n \<and> u = take n (drop i s)"
proof (induction U s rule: findall.induct)
  case (1 U)
  then show ?case by simp
next
  case (2 U c cs)
  show ?case
  proof (cases "match_here U (c # cs)")
    case None
    with 2 obtain i n where f: "\<forall>i'<i. match_here U (drop i' cs) = None"
      and m: "match_here U (drop i cs) = Some n" and u: "u = take n (drop i cs)"
      by auto
    have "\<forall>i'<Suc i. match_here U (drop i' (c # cs)) = None"
    proof (intro allI impI)
      fix i' assume "i' < Suc i"
      then show "match_here U (drop i' (c # cs)) = None"
        using None f by (cases i') auto
    qed
    moreover have "match_here U (drop (Suc i) (c # cs)) = Some n" using m by simp
    moreover have "u = take n (drop (Suc i) (c # cs))" using u by simp
    ultimately show ?thesis by blast
  next
    case (Some n)
    with 2 have "u = take n (c # cs)" by simp
    moreover have "\<forall>i'<(0::nat). match_here U (drop i' (c # cs)) = None" by simp
    moreover have "match_here U (drop 0 (c # cs)) = Some n" using Some by simp
    ultimately show ?thesis by (metis drop_0)
  qed
qed


lemma findall_first:
  assumes "is_match U text i j"
  shows "\<exists>i0 n us. findall U text = slice text i0 (i0 + n) # us \<and>
           is_match U text i0 (i0 + n) \<and>
           (\<forall>i' j'. is_match U text i' j' \<longrightarrow> i0 \<le> i' \<and> (i' = i0 \<longrightarrow> j' \<le> i0 + n))"
proof -
  from assms have "match_here U (drop i text) \<noteq> None"
    by (auto simp: match_here_None)
  then have "findall U text \<noteq> []"
    by (auto simp: findall_Nil)
  then obtain u us where f: "findall U text = u # us"
    by (cases "findall U text") auto
  from findall_Cons [OF f] obtain i0 n
    where before: "\<forall>i'<i0. match_here U (drop i' text) = None"
      and here: "match_here U (drop i0 text) = Some n"
      and u: "u = take n (drop i0 text)"
    by blast
  from match_here_Some [OF here]
  have m: "is_match U text i0 (i0 + n)"
    and longest: "\<And>j'. is_match U text i0 j' \<Longrightarrow> j' \<le> i0 + n"
    by auto
  have first: "i0 \<le> i'" if "is_match U text i' j'" for i' j'
  proof (rule ccontr)
    assume "\<not> i0 \<le> i'"
    then have "match_here U (drop i' text) = None" using before by simp
    with that show False by (simp add: match_here_None)
  qed
  have "u = slice text i0 (i0 + n)" by (simp add: u slice_def)
  with f m first longest show ?thesis by blast
qed

lemma is_match_nonempty: "is_match U text i j \<Longrightarrow> slice text i j \<noteq> []"
  by (auto simp: is_match_def slice_def)

lemmas eval_defs = ustr_def startswith_def slice_def XHS_PREFIX_def XHS_MARKER_def
  in_class_def is_word_def isalnum_def ascii_alnum_def boundary_after_def match_here_def
  extract_url_def url_expr_def resolve_def word_at_def word_boundary_def is_match_def
  sample_table_def share_text_def direct_url_def secure_short_link_def

text \<open>
  Claim C1.  When the text contains the marker and has a substring that is a
  well-formed short link ending at a word boundary, \<open>extract_url\<close> returns the first
  such substring, unmodified: the slice \<open>text[i0:j0]\<close> of the input where \<open>i0\<close> is
  the leftmost position at which a short link starts and \<open>j0\<close> the furthest end of a
  short link starting there (the repetition is greedy).  The resolution step passes
  exactly this string on.
\<close>

theorem extract_url_first_match:
  assumes "contains XHS_MARKER text" and "is_match U text i j"
  shows "\<exists>i0 j0. is_match U text i0 j0 \<and>
           (\<forall>i' j'. is_match U text i' j' \<longrightarrow> i0 \<le> i' \<and> (i' = i0 \<longrightarrow> j' \<le> j0)) \<and>
           extract_url U text = Some (slice text i0 j0) \<and>
           resolve U text = Inr (slice text i0 j0)"
proof -
  from findall_first [OF assms(2)] obtain i0 n us
    where f: "findall U text = slice text i0 (i0 + n) # us"
      and m: "is_match U text i0 (i0 + n)"
      and least: "\<forall>i' j'. is_match U text i' j' \<longrightarrow> i0 \<le> i' \<and> (i' = i0 \<longrightarrow> j' \<le> i0 + n)"
    by blast
  have e: "extract_url U text = Some (slice text i0 (i0 + n))"
    by (simp add: extract_url_def f)
  have "resolve U text = Inr (slice text i0 (i0 + n))"
    using assms(1) is_match_nonempty [OF m] by (simp add: resolve_def url_expr_def e)
  with m least e show ?thesis by blast
qed

theorem extract_url_first_match_witness:
  "contains XHS_MARKER share_text \<and> is_match sample_table share_text 3 28 \<and>
   (\<exists>i0 j0. is_match sample_table share_text i0 j0 \<and>
      (\<forall>i' j'. is_match sample_table share_text i' j' \<longrightarrow> i0 \<le> i' \<and> (i' = i0 \<longrightarrow> j' \<le> j0)) \<and>
      extract_url sample_table share_text = Some (slice share_text i0 j0) \<and>
      resolve sample_table share_text = Inr (slice share_text i0 j0)) \<and>
   extract_url sample_table share_text = Some (ustr ''http://xhslink.com/a/AbC9'')"
proof -
  have m: "contains XHS_MARKER share_text" by (simp add: eval_defs)
  have e: "is_match sample_table share_text 3 28" by (simp add: eval_defs)
  note w = extract_url_first_match [OF m e]
  have "extract_url sample_table share_text = Some (ustr ''http://xhslink.com/a/AbC9'')"
    by (simp add: eval_defs)
  with m e w show ?thesis by blast
qed

text \<open>
  Claim C2, amended.  For a non-empty text without the marker, the resolution step
  returns the text itself, unchanged, as the URL to fetch.  (The expression that
  computes \<open>url\<close> yields the text for every text without the marker; the guard
  \<open>if not url\<close> then rejects the empty one.)
\<close>

theorem resolve_without_marker:
  assumes "\<not> contains XHS_MARKER text" and "text \<noteq> []"
  shows "resolve U text = Inr text \<and> url_expr U text = Some text"
  using assms by (simp add: url_expr_def resolve_def)

theorem resolve_without_marker_witness:
  "\<not> contains XHS_MARKER direct_url \<and> direct_url \<noteq> [] \<and>
   resolve sample_table direct_url = Inr direct_url \<and>
   url_expr sample_table direct_url = Some direct_url"
proof -
  have m: "\<not> contains XHS_MARKER direct_url" by (simp add: eval_defs)
  have n: "direct_url \<noteq> []" by (simp add: eval_defs)
  from resolve_without_marker [OF m n, of sample_table] n m show ?thesis by blast
qed

text \<open>
  Claim C2 as stated fails at the empty text: it does not contain the marker, and the
  resolution step yields \<open>NotFound\<close> instead of handing the text on.
\<close>

theorem resolve_empty_counterexample:
  "\<not> contains XHS_MARKER [] \<and> url_expr sample_table [] = Some [] \<and>
   resolve sample_table [] = Inl NotFound"
  by (simp add: eval_defs)

lemma resolve_NotFound_cases:
  "resolve U text = Inl NotFound \<longleftrightarrow>
     (contains XHS_MARKER text \<and> (\<forall>i j. \<not> is_match U text i j)) \<or> text = []"
proof (cases "contains XHS_MARKER text")
  case False
  then show ?thesis by (simp add: resolve_def url_expr_def)
next
  case True
  then have ne: "text \<noteq> []" by (auto simp: XHS_MARKER_def ustr_def)
  show ?thesis
  proof (cases "\<exists>i j. is_match U text i j")
    case yes: True
    then obtain i j where "is_match U text i j" by blast
    from findall_first [OF this] obtain i0 n us
      where f: "findall U text = slice text i0 (i0 + n) # us"
        and m: "is_match U text i0 (i0 + n)"
      by blast
    have "resolve U text = Inr (slice text i0 (i0 + n))"
      using True is_match_nonempty [OF m] by (simp add: resolve_def url_expr_def extract_url_def f)
    with yes ne show ?thesis by auto
  next
    case no: False
    then have "\<forall>i. match_here U (drop i text) = None" by (simp add: match_here_None)
    then have "findall U text = []" by (simp add: findall_Nil)
    then have "resolve U text = Inl NotFound"
      using True by (simp add: resolve_def url_expr_def extract_url_def)
    with no True show ?thesis by simp
  qed
qed

lemma get_content_never_NoValidLink:
  "get_content e u \<noteq> Inl (HTTPException 400 NoValidLink)"
  by (auto simp: get_content_def split: sum.splits)

lemma extract_content_NoValidLink:
  "fst (extract_content e fs req) = Inl (HTTPException 400 NoValidLink) \<longleftrightarrow>
     resolve (unicode_alnum e) (req_url req) = Inl NotFound"
proof (cases "resolve (unicode_alnum e) (req_url req)")
  case (Inl a)
  then show ?thesis by (cases a) (simp add: extract_content_def)
next
  case (Inr u)
  show ?thesis
  proof (cases "get_content e u")
    case (Inl err)
    with Inr get_content_never_NoValidLink [of e u] show ?thesis
      by (simp add: extract_content_def)
  next
    case r: (Inr result)
    with Inr show ?thesis
      by (simp add: extract_content_def Let_def split: prod.splits)
  qed
qed

text \<open>
  Claim C3.  The resolution step yields \<open>NotFound\<close> in exactly two cases: the text
  contains the marker but no substring of it is a well-formed short link, or the text is
  empty.  The HTTP service answers with status 400 "no valid link" in exactly these
  cases.
\<close>

theorem resolve_NotFound_iff:
  "(resolve U text = Inl NotFound \<longleftrightarrow>
      (contains XHS_MARKER text \<and> (\<forall>i j. \<not> is_match U text i j)) \<or> text = []) \<and>
   (fst (extract_content e fs req) = Inl (HTTPException 400 NoValidLink) \<longleftrightarrow>
      resolve (unicode_alnum e) (req_url req) = Inl NotFound)"
  using resolve_NotFound_cases [of U "text"] extract_content_NoValidLink [of e fs req]
  by blast

theorem resolve_NotFound_iff_witness:
  "resolve sample_table secure_short_link = Inl NotFound \<and>
   contains XHS_MARKER secure_short_link \<and>
   (\<forall>i j. \<not> is_match sample_table secure_short_link i j) \<and>
   resolve sample_table [] = Inl NotFound \<and>
   fst (extract_content sample_env empty_fs \<lparr>req_url = secure_short_link, save_images = True\<rparr>)
     = Inl (HTTPException 400 NoValidLink)"
proof -
  have r: "resolve sample_table secure_short_link = Inl NotFound" by (simp add: eval_defs)
  have n: "secure_short_link \<noteq> []" by (simp add: eval_defs)
  note w = resolve_NotFound_iff [of sample_table secure_short_link sample_env empty_fs
      "\<lparr>req_url = secure_short_link, save_images = True\<rparr>"]
  from r n w
  have a: "contains XHS_MARKER secure_short_link \<and>
        (\<forall>i j. \<not> is_match sample_table secure_short_link i j)"
    by blast
  have b: "resolve sample_table [] = Inl NotFound"
    using resolve_NotFound_iff [of sample_table "[]" sample_env empty_fs
      "\<lparr>req_url = secure_short_link, save_images = True\<rparr>"] by blast
  have "resolve (unicode_alnum sample_env)
      (req_url \<lparr>req_url = secure_short_link, save_images = True\<rparr>) = Inl NotFound"
    using r by (simp add: sample_env_def)
  with w have c: "fst (extract_content sample_env empty_fs
      \<lparr>req_url = secure_short_link, save_images = True\<rparr>) = Inl (HTTPException 400 NoValidLink)"
    by blast
  from r a b c show ?thesis by blast
qed

section \<open>Properties of the content extractor\<close>

lemmas page_defs = META_def DIV_def NAME_def ID_def CONTENT_def OG_TITLE_def OG_IMAGE_def
  DETAIL_DESC_def BRAND_def TITLE_NOT_FOUND_def BODY_NOT_FOUND_def ustr_def
  find_def find_all_def descendants_def startswith_def
  note_title_def image_url_1_def image_url_2_def sample_page_def
  page_title_without_content_def mid_brand_title_def page_mid_brand_def mid_brand_meta_def

lemma try_get_content_fetched:
  assumes "http_get e u = Inr r" and "\<not> raise_for_status r"
    and "html_parser e (body r) = Inr soup"
  shows "try_get_content e u =
     (case title_text soup of
        Inl exc \<Rightarrow> Inl exc
      | Inr t \<Rightarrow> Inr \<lparr>title = t, content = content_text soup,
                     images = og_images soup, url = u, local_images = None\<rparr>)"
  using assms by (simp add: try_get_content_def)

lemma try_get_content_Inr:
  assumes "try_get_content e u = Inr result"
  shows "\<exists>r soup t. http_get e u = Inr r \<and> \<not> raise_for_status r \<and>
           html_parser e (body r) = Inr soup \<and> title_text soup = Inr t \<and>
           result = \<lparr>title = t, content = content_text soup,
                     images = og_images soup, url = u, local_images = None\<rparr>"
  using assms
  by (auto simp: try_get_content_def split: if_splits sum.splits)

text \<open>Every way in which the \<open>try\<close> block of \<open>get_content\<close> ends in an exception.\<close>

lemma try_get_content_Inl:
  "try_get_content e u = Inl exc \<longleftrightarrow>
     http_get e u = Inl exc \<or>
     (\<exists>r. http_get e u = Inr r \<and>
        (if raise_for_status r then exc = RequestException
         else html_parser e (body r) = Inl exc \<or>
              (\<exists>soup. html_parser e (body r) = Inr soup \<and> title_text soup = Inl exc)))"
  by (auto simp: try_get_content_def split: if_splits sum.splits)

lemma get_content_Inr: "get_content e u = Inr result \<longleftrightarrow> try_get_content e u = Inr result"
  by (auto simp: get_content_def split: sum.splits)

lemma get_content_cli_Some:
  "get_content_cli e u = Some result \<longleftrightarrow> try_get_content e u = Inr result"
  by (auto simp: get_content_cli_def split: sum.splits)

lemma title_text_cases:
  "title_text soup = Inl exc \<Longrightarrow> exc = KeyError"
  by (auto simp: title_text_def split: option.splits)

text \<open>Pages without the title element, and pages without the body element.\<close>

lemma title_sentinel:
  assumes "find soup META NAME OG_TITLE = None"
  shows "title_text soup = Inr TITLE_NOT_FOUND"
  using assms by (simp add: title_text_def)

lemma body_sentinel:
  assumes "find soup DIV ID DETAIL_DESC = None"
  shows "content_text soup = BODY_NOT_FOUND"
  using assms by (simp add: content_text_def)

lemma get_content_without_title_element:
  assumes "http_get e u = Inr r" and "\<not> raise_for_status r"
    and "html_parser e (body r) = Inr soup"
    and "find soup META NAME OG_TITLE = None"
  shows "\<exists>result. get_content e u = Inr result \<and> get_content_cli e u = Some result \<and>
           title result = TITLE_NOT_FOUND"
  using assms
  by (simp add: get_content_def get_content_cli_def try_get_content_fetched [OF assms(1-3)]
      title_sentinel)

lemma get_content_without_body_element:
  assumes "http_get e u = Inr r" and "\<not> raise_for_status r"
    and "html_parser e (body r) = Inr soup"
    and "find soup DIV ID DETAIL_DESC = None"
    and "title_text soup = Inr t"
  shows "\<exists>result. get_content e u = Inr result \<and> get_content_cli e u = Some result \<and>
           content result = BODY_NOT_FOUND"
  using assms
  by (simp add: get_content_def get_content_cli_def try_get_content_fetched [OF assms(1-3)]
      body_sentinel)

lemmas env_defs = sample_response_def env_title_without_content_def env_mid_brand_def
  raise_for_status_def sample_env_def

text \<open>
  Claim C4.  A page without the title element gets the sentinel title, and a page
  without the body element gets the sentinel body, without an exception
  (\<open>get_content_without_title_element\<close>, \<open>get_content_without_body_element\<close>) as long
  as the title lookup itself succeeds.  The page \<open><meta name="og:title">\<close>, with no
  content value on the title element and no body element, is where the claim fails:
  the subscript \<open>title_meta['content']\<close> raises \<open>KeyError\<close>, which the HTTP service
  reports as status 500 and the command-line scraper as \<open>None\<close>.  The loop over the
  image elements tests \<open>'content' in img_meta.attrs\<close> first; the title path does not.
\<close>

theorem get_content_title_without_content_attr:
  "find page_title_without_content DIV ID DETAIL_DESC = None \<and>
   http_get env_title_without_content direct_url = Inr sample_response \<and>
   \<not> raise_for_status sample_response \<and>
   html_parser env_title_without_content (body sample_response)
     = Inr page_title_without_content \<and>
   get_content env_title_without_content direct_url = Inl (HTTPException 500 ParseFailed) \<and>
   get_content_cli env_title_without_content direct_url = None"
proof -
  have t: "title_text page_title_without_content = Inl KeyError"
    by (simp add: title_text_def page_defs)
  have f: "http_get env_title_without_content direct_url = Inr sample_response"
    by (simp add: env_defs)
  have s: "\<not> raise_for_status sample_response" by (simp add: env_defs)
  have p: "html_parser env_title_without_content (body sample_response)
      = Inr page_title_without_content"
    by (simp add: env_defs)
  have "try_get_content env_title_without_content direct_url = Inl KeyError"
    by (simp add: try_get_content_fetched [OF f s p] t)
  then have "get_content env_title_without_content direct_url = Inl (HTTPException 500 ParseFailed)"
    "get_content_cli env_title_without_content direct_url = None"
    by (simp_all add: get_content_def get_content_cli_def)
  moreover have "find page_title_without_content DIV ID DETAIL_DESC = None"
    by (simp add: page_defs)
  ultimately show ?thesis using f s p by simp
qed

text \<open>\<open>replace\<close>\<close>

lemma contains_Cons_iff:
  "contains pat (c # cs) \<longleftrightarrow> startswith (c # cs) pat \<or> contains pat cs"
  by simp

lemma replace_absent:
  "\<not> contains (p # ps) s \<Longrightarrow> replace s (p # ps) new = s"
  by (induction s) auto

lemma replace_first_occurrence:
  assumes "\<forall>i<length a. \<not> startswith (drop i (a @ (p # ps) @ b)) (p # ps)"
  shows "replace (a @ (p # ps) @ b) (p # ps) new = a @ new @ replace b (p # ps) new"
  using assms
proof (induction a)
  case Nil
  have "startswith ((p # ps) @ b) (p # ps)" by (simp add: startswith_def)
  then have "replace (p # (ps @ b)) (p # ps) new =
      new @ replace (drop (length (p # ps)) (p # (ps @ b))) (p # ps) new"
    by (simp del: drop_Suc_Cons)
  then show ?case by simp
next
  case (Cons x a)
  from Cons.prems have "\<not> startswith (drop 0 ((x # a) @ (p # ps) @ b)) (p # ps)"
    by blast
  then have n: "\<not> startswith (x # (a @ (p # ps) @ b)) (p # ps)" by simp
  have "\<forall>i<length a. \<not> startswith (drop i (a @ (p # ps) @ b)) (p # ps)"
  proof (intro allI impI)
    fix i assume "i < length a"
    then have "Suc i < length (x # a)" by simp
    with Cons.prems have "\<not> startswith (drop (Suc i) ((x # a) @ (p # ps) @ b)) (p # ps)"
      by blast
    then show "\<not> startswith (drop i (a @ (p # ps) @ b)) (p # ps)" by simp
  qed
  from Cons.IH [OF this] n show ?case by simp
qed

lemma BRAND_Cons: "BRAND = 32 # [45, 32, 23567, 32418, 20070]"
  by (simp add: BRAND_def)

text \<open>
  Claim C5, amended.  When the title element is found and has a content value, the
  title is that value with every occurrence of the branding string deleted, wherever
  it stands: a value that does not contain the string is returned unchanged, and a
  value whose first occurrence of the string follows the prefix \<open>a\<close> becomes \<open>a\<close>
  followed by the remainder treated the same way.
\<close>

theorem title_text_replaces_everywhere:
  assumes "http_get e u = Inr r" and "\<not> raise_for_status r"
    and "html_parser e (body r) = Inr soup"
    and "find soup META NAME OG_TITLE = Some m"
    and "tag_attrs m CONTENT = Some v"
  shows "(\<exists>result. get_content e u = Inr result \<and> get_content_cli e u = Some result \<and>
            title result = replace v BRAND []) \<and>
         (\<not> contains BRAND v \<longrightarrow> replace v BRAND [] = v) \<and>
         (\<forall>a b. v = a @ BRAND @ b \<and> (\<forall>i<length a. \<not> startswith (drop i v) BRAND)
            \<longrightarrow> replace v BRAND [] = a @ replace b BRAND [])"
proof -
  have "title_text soup = Inr (replace v BRAND [])"
    using assms(4,5) by (simp add: title_text_def)
  then have 1: "\<exists>result. get_content e u = Inr result \<and> get_content_cli e u = Some result \<and>
      title result = replace v BRAND []"
    by (simp add: get_content_def get_content_cli_def try_get_content_fetched [OF assms(1-3)])
  have 2: "\<not> contains BRAND v \<longrightarrow> replace v BRAND [] = v"
    unfolding BRAND_Cons by (simp add: replace_absent)
  have 3: "replace v BRAND [] = a @ replace b BRAND []"
    if "v = a @ BRAND @ b" and "\<forall>i<length a. \<not> startswith (drop i v) BRAND" for a b
    using that replace_first_occurrence [of a 32 "[45, 32, 23567, 32418, 20070]" b "[]"]
    unfolding BRAND_Cons by simp
  from 1 2 3 show ?thesis by blast
qed

lemma get_content_mid_brand: "get_content env_mid_brand direct_url = Inr mid_brand_result"
proof -
  have f: "http_get env_mid_brand direct_url = Inr sample_response"
    by (simp add: env_defs)
  have s: "\<not> raise_for_status sample_response" by (simp add: env_defs)
  have p: "html_parser env_mid_brand (body sample_response) = Inr page_mid_brand"
    by (simp add: env_defs)
  have t: "title_text page_mid_brand = Inr [65, 32, 66]"
    by (simp add: title_text_def page_defs)
  have c: "content_text page_mid_brand = BODY_NOT_FOUND"
    by (simp add: content_text_def page_defs)
  have i: "og_images page_mid_brand = []"
    by (simp add: og_images_def page_defs)
  show ?thesis
    by (simp add: get_content_def try_get_content_fetched [OF f s p] t c i mid_brand_result_def)
qed

text \<open>
  Claim C5 as stated fails: the content value \<open>A - XYZ B\<close> (\<open>XYZ\<close> the three
  ideographs of the branding string) does not end with the branding string, and yet
  the title returned is \<open>A B\<close>.
\<close>

theorem title_text_mid_brand_counterexample:
  "mid_brand_title = [65, 32, 45, 32, 23567, 32418, 20070, 32, 66] \<and>
   \<not> startswith (rev mid_brand_title) (rev BRAND) \<and>
   find page_mid_brand META NAME OG_TITLE = Some mid_brand_meta \<and>
   tag_attrs mid_brand_meta CONTENT = Some mid_brand_title \<and>
   get_content env_mid_brand direct_url
     = Inr \<lparr>title = [65, 32, 66], content = BODY_NOT_FOUND, images = [],
            url = direct_url, local_images = None\<rparr>"
proof -
  have "mid_brand_title = [65, 32, 45, 32, 23567, 32418, 20070, 32, 66]"
    "\<not> startswith (rev mid_brand_title) (rev BRAND)"
    by (simp_all add: page_defs)
  moreover have "find page_mid_brand META NAME OG_TITLE = Some mid_brand_meta"
    by (simp add: find_def find_all_def descendants_def page_mid_brand_def)
      (simp add: page_defs)
  moreover have "tag_attrs mid_brand_meta CONTENT = Some mid_brand_title"
    by (simp add: mid_brand_meta_def CONTENT_def NAME_def ustr_def)
  ultimately show ?thesis using get_content_mid_brand by (simp add: mid_brand_result_def)
qed

theorem title_text_replaces_everywhere_witness:
  "http_get env_mid_brand direct_url = Inr sample_response \<and>
   \<not> raise_for_status sample_response \<and>
   html_parser env_mid_brand (body sample_response) = Inr page_mid_brand \<and>
   find page_mid_brand META NAME OG_TITLE = Some mid_brand_meta \<and>
   tag_attrs mid_brand_meta CONTENT = Some mid_brand_title \<and>
   (\<exists>result. get_content env_mid_brand direct_url = Inr result \<and>
      title result = replace mid_brand_title BRAND []) \<and>
   replace mid_brand_title BRAND [] = [65, 32, 66]"
proof -
  have h: "http_get env_mid_brand direct_url = Inr sample_response"
    by (simp add: env_defs)
  have s: "\<not> raise_for_status sample_response" by (simp add: env_defs)
  have p: "html_parser env_mid_brand (body sample_response) = Inr page_mid_brand"
    by (simp add: env_defs)
  have f: "find page_mid_brand META NAME OG_TITLE = Some mid_brand_meta"
    by (simp add: find_def find_all_def descendants_def page_mid_brand_def)
      (simp add: page_defs)
  have a: "tag_attrs mid_brand_meta CONTENT = Some mid_brand_title"
    by (simp add: mid_brand_meta_def CONTENT_def NAME_def ustr_def)
  note w = title_text_replaces_everywhere [OF h s p f a]
  have d: "mid_brand_title = [65] @ BRAND @ [32, 66]" by (simp add: mid_brand_title_def)
  have n: "\<forall>i<length [65::nat]. \<not> startswith (drop i mid_brand_title) BRAND"
    by (simp add: page_defs)
  have r: "replace [32, 66] BRAND [] = [32, 66]" by (simp add: page_defs)
  from w d n have "replace mid_brand_title BRAND [] = [65] @ replace [32, 66] BRAND []"
    by blast
  with r w h s p f a show ?thesis by auto
qed

text \<open>Images\<close>

lemma collect_images_eq:
  "collect_images ms acc =
     acc @ concat (map (\<lambda>n. case tag_attrs n CONTENT of Some v \<Rightarrow> [v] | None \<Rightarrow> []) ms)"
  by (induction ms arbitrary: acc) (auto split: option.splits)

lemma concat_map_filter:
  "concat (map f (filter P xs)) = concat (map (\<lambda>x. if P x then f x else []) xs)"
  by (induction xs) auto

lemma og_images_eq: "og_images soup = og_image_values soup"
  by (simp add: og_images_def og_image_values_def find_all_def collect_images_eq concat_map_filter)

text \<open>
  Claim C6.  Whenever \<open>get_content\<close> returns a record, in the HTTP service or in the
  command-line scraper, its images are the content values of the \<open>og:image\<close> meta
  elements of the fetched page that have a content value, in document order; elements
  without one contribute nothing.
\<close>

theorem images_in_document_order:
  assumes "get_content e u = Inr result \<or> get_content_cli e u = Some result"
  shows "\<exists>r soup. http_get e u = Inr r \<and> html_parser e (body r) = Inr soup \<and>
           images result = og_image_values soup"
proof -
  from assms have "try_get_content e u = Inr result"
    by (auto simp: get_content_Inr get_content_cli_Some)
  from try_get_content_Inr [OF this] show ?thesis
    by (auto simp: og_images_eq)
qed


theorem images_in_document_order_witness:
  "get_content sample_env direct_url
     = Inr \<lparr>title = ustr ''My Note'', content = ustr ''hello world'',
            images = [image_url_1, image_url_2], url = direct_url, local_images = None\<rparr> \<and>
   og_image_values sample_page = [image_url_1, image_url_2]"
proof -
  have f: "http_get sample_env direct_url = Inr \<lparr>status_code = 200, body = []\<rparr>"
    by (simp add: env_defs)
  have s: "\<not> raise_for_status \<lparr>status_code = 200, body = []\<rparr>" by (simp add: env_defs)
  have p: "\<And>t. html_parser sample_env t = Inr sample_page"
    by (simp add: env_defs)
  have t: "title_text sample_page = Inr (ustr ''My Note'')"
    by (simp add: title_text_def page_defs)
  have c: "content_text sample_page = ustr ''hello world''"
    by (simp add: content_text_def page_defs get_text_strip_def strip_def py_isspace_def
        List.map_filter_def)
  have i: "og_images sample_page = [image_url_1, image_url_2]"
    by (simp add: og_images_def page_defs)
  have g: "get_content sample_env direct_url
     = Inr \<lparr>title = ustr ''My Note'', content = ustr ''hello world'',
            images = [image_url_1, image_url_2], url = direct_url, local_images = None\<rparr>"
    by (simp add: get_content_def try_get_content_fetched [OF f s p] t c i)
  from images_in_document_order [of sample_env direct_url, OF disjI1, OF g] f p
  have "og_image_values sample_page = [image_url_1, image_url_2]" by auto
  with g show ?thesis by simp
qed


section \<open>Properties of the image persister\<close>



lemma request_fails_not_ok: "request_fails e u \<Longrightarrow> \<not> download_ok e folder i u"
  by (auto simp: request_fails_def download_ok_def raise_for_status_def split: sum.splits)


























lemma get_content_local_images:
  "get_content e u = Inr result \<Longrightarrow> local_images result = None"
  by (auto simp: get_content_Inr dest!: try_get_content_Inr)






lemma resolve_direct_url: "resolve sample_table direct_url = Inr direct_url"
  by (simp add: eval_defs)




lemma safe_title_filter: "safe_title U t = filter (keep_char U) t"
  by (induction t) (simp_all add: safe_title_def)

lemmas name_defs = safe_title_def keep_char_def isalnum_def ascii_alnum_def sample_table_def
  folder_name_api_def folder_name_cli_def path_join_def startswith_def ustr_def
  REDBOOK_CONTENT_PFX_def INFO_JSON_def IMAGE_PFX_def DOT_JPG_def sample_folder_def

lemma folder_name_api_sample: "folder_name_api sample_env (ustr ''My Note'') = sample_folder"
  by (simp add: name_defs env_defs)

lemma folder_name_cli_sample:
  "folder_name_cli sample_env (ustr ''out'') (ustr ''My Note'') = ustr ''out/My Note''"
  by (simp add: name_defs env_defs)
















text \<open>
  Claim C8.  The sanitised title consists of exactly the characters of the title that
  are alphanumeric, a space, a hyphen or an underscore, in their order; the HTTP service
  puts its first 30 characters into the directory name, the command-line scraper its
  first 50; and \<open>Hello! @World #1\<close> is sanitised to \<open>Hello World 1\<close>.
\<close>

theorem safe_title_keeps_allowed_chars:
  "safe_title U t = filter (\<lambda>x. isalnum U x \<or> x = 32 \<or> x = 45 \<or> x = 95) t \<and>
   folder_name_api e t =
     REDBOOK_CONTENT_PFX @ timestamp e @ [95] @
       take 30 (filter (\<lambda>x. isalnum (unicode_alnum e) x \<or> x = 32 \<or> x = 45 \<or> x = 95) t) \<and>
   folder_name_cli e base_folder t =
     path_join base_folder
       (take 50 (filter (\<lambda>x. isalnum (unicode_alnum e) x \<or> x = 32 \<or> x = 45 \<or> x = 95) t)) \<and>
   length (take 30 (safe_title U t)) \<le> 30 \<and> length (take 50 (safe_title U t)) \<le> 50 \<and>
   safe_title U (ustr ''Hello! @World #1'') = ustr ''Hello World 1''"
proof -
  have k: "keep_char V = (\<lambda>x. isalnum V x \<or> x = 32 \<or> x = 45 \<or> x = 95)" for V
    by (rule ext) (simp add: keep_char_def)
  have f: "safe_title V s = filter (\<lambda>x. isalnum V x \<or> x = 32 \<or> x = 45 \<or> x = 95) s" for V s
    using safe_title_filter [of V s] by (simp add: k)
  have ex: "safe_title U (ustr ''Hello! @World #1'') = ustr ''Hello World 1''"
    by (simp add: safe_title_def keep_char_def isalnum_def ascii_alnum_def ustr_def)
  show ?thesis
    by (simp add: f [symmetric] folder_name_api_def folder_name_cli_def ex)
qed

theorem safe_title_keeps_allowed_chars_witness:
  "safe_title sample_table long_title
     = ustr ''2024 teneleven places you must see - part_1 updated with maps  notes'' \<and>
   folder_name_api sample_env long_title
     = ustr ''redbook_content_20240101_120000_2024 teneleven places you must'' \<and>
   folder_name_cli sample_env (ustr ''out'') long_title
     = ustr ''out/2024 teneleven places you must see - part_1 update'' \<and>
   safe_title sample_table (ustr ''Hello! @World #1'') = ustr ''Hello World 1''"
proof -
  note w = safe_title_keeps_allowed_chars [of sample_table long_title sample_env "ustr ''out''"]
  have a: "filter (\<lambda>x. isalnum sample_table x \<or> x = 32 \<or> x = 45 \<or> x = 95) long_title
      = ustr ''2024 teneleven places you must see - part_1 updated with maps  notes''"
    by (simp add: long_title_def name_defs)
  have u: "unicode_alnum sample_env = sample_table" by (simp add: sample_env_def)
  have t: "timestamp sample_env = ustr ''20240101_120000''" by (simp add: sample_env_def)
  from w have 1: "safe_title sample_table long_title
      = ustr ''2024 teneleven places you must see - part_1 updated with maps  notes''"
    unfolding a by blast
  from w have 2: "folder_name_api sample_env long_title
      = ustr ''redbook_content_20240101_120000_2024 teneleven places you must''"
    unfolding u a t by (simp add: ustr_def REDBOOK_CONTENT_PFX_def)
  from w have 3: "folder_name_cli sample_env (ustr ''out'') long_title
      = ustr ''out/2024 teneleven places you must see - part_1 update''"
    unfolding u a by (simp add: ustr_def path_join_def startswith_def)
  from safe_title_keeps_allowed_chars [of sample_table long_title sample_env "ustr ''out''"]
  have 4: "safe_title sample_table (ustr ''Hello! @World #1'') = ustr ''Hello World 1''"
    by blast
  from 1 2 3 4 show ?thesis by blast
qed




section \<open>Error responses of the HTTP service\<close>

lemma get_content_Inl:
  "try_get_content e u = Inl exc \<Longrightarrow>
   get_content e u = Inl (if exc = RequestException then HTTPException 400 RequestFailed
                          else HTTPException 500 ParseFailed)"
  by (simp add: get_content_def)

lemma request_fails_try:
  "request_fails e u \<Longrightarrow> try_get_content e u = Inl RequestException"
  by (auto simp: request_fails_def try_get_content_def raise_for_status_def split: sum.splits)

lemma handlers_Inl:
  assumes "resolve (unicode_alnum e) (req_url req) = Inr u" and "get_content e u = Inl err"
  shows "extract_content e fs req = (Inl err, fs) \<and> extract_content_index e fs req = (Inl err, fs)"
  using assms by (simp add: extract_content_def extract_content_index_def)

text \<open>
  Claim C9, amended.  For every request whose text resolves to a URL: when the page
  request ends in a \<open>RequestException\<close> (\<open>requests.get\<close> raises one, as it does for a
  network error, or the answer has a 4xx or 5xx status) the service answers with status
  400; when any other exception is raised in \<open>get_content\<close>, by \<open>requests.get\<close>, by
  the HTML parser or by the lookup of the title, it answers with status 500; in both
  cases the file system is left as it was.  The third part states the same for every
  exception the \<open>try\<close> block can end in.  This holds for the handler with persistence
  and for the one of \<open>api/index.py\<close>.
\<close>

theorem fetch_failure_is_400_parse_failure_is_500:
  assumes "resolve (unicode_alnum e) (req_url req) = Inr u"
  shows "(request_fails e u \<longrightarrow>
            extract_content e fs req = (Inl (HTTPException 400 RequestFailed), fs) \<and>
            extract_content_index e fs req = (Inl (HTTPException 400 RequestFailed), fs)) \<and>
         (\<forall>exc. exc \<noteq> RequestException \<and>
              (http_get e u = Inl exc \<or>
               (\<exists>r. http_get e u = Inr r \<and> \<not> raise_for_status r \<and>
                  (html_parser e (body r) = Inl exc \<or>
                   (\<exists>soup. html_parser e (body r) = Inr soup \<and> title_text soup = Inl exc))))
            \<longrightarrow>
            extract_content e fs req = (Inl (HTTPException 500 ParseFailed), fs) \<and>
            extract_content_index e fs req = (Inl (HTTPException 500 ParseFailed), fs)) \<and>
         (\<forall>exc. try_get_content e u = Inl exc \<longrightarrow>
            extract_content e fs req =
              (Inl (if exc = RequestException then HTTPException 400 RequestFailed
                    else HTTPException 500 ParseFailed), fs) \<and>
            extract_content_index e fs req =
              (Inl (if exc = RequestException then HTTPException 400 RequestFailed
                    else HTTPException 500 ParseFailed), fs))"
proof (intro conjI impI allI)
  assume "request_fails e u"
  then have "get_content e u = Inl (HTTPException 400 RequestFailed)"
    using get_content_Inl [OF request_fails_try] by simp
  from handlers_Inl [OF assms this]
  show "extract_content e fs req = (Inl (HTTPException 400 RequestFailed), fs)"
    and "extract_content_index e fs req = (Inl (HTTPException 400 RequestFailed), fs)"
    by simp_all
next
  fix exc
  assume h: "exc \<noteq> RequestException \<and>
      (http_get e u = Inl exc \<or>
       (\<exists>r. http_get e u = Inr r \<and> \<not> raise_for_status r \<and>
          (html_parser e (body r) = Inl exc \<or>
           (\<exists>soup. html_parser e (body r) = Inr soup \<and> title_text soup = Inl exc))))"
  then have "try_get_content e u = Inl exc"
    unfolding try_get_content_Inl by auto
  from get_content_Inl [OF this] h
  have "get_content e u = Inl (HTTPException 500 ParseFailed)" by simp
  from handlers_Inl [OF assms this]
  show "extract_content e fs req = (Inl (HTTPException 500 ParseFailed), fs)"
    and "extract_content_index e fs req = (Inl (HTTPException 500 ParseFailed), fs)"
    by simp_all
next
  fix exc
  assume "try_get_content e u = Inl exc"
  from handlers_Inl [OF assms get_content_Inl [OF this]]
  show "extract_content e fs req =
      (Inl (if exc = RequestException then HTTPException 400 RequestFailed
            else HTTPException 500 ParseFailed), fs)"
    and "extract_content_index e fs req =
      (Inl (if exc = RequestException then HTTPException 400 RequestFailed
            else HTTPException 500 ParseFailed), fs)"
    by simp_all
qed

lemma resolve_sample_request:
  "unicode_alnum e = sample_table \<Longrightarrow>
   resolve (unicode_alnum e) (req_url sample_request) = Inr direct_url"
  using resolve_direct_url by (simp add: sample_request_def)

lemmas error_env_defs = env_location_parse_error_def env_parser_raises_def
  env_not_modified_def sample_env_def

theorem fetch_failure_is_400_parse_failure_is_500_witness:
  "resolve (unicode_alnum sample_env) (req_url failing_request) = Inr image_url_2 \<and>
   http_get sample_env image_url_2 = Inr \<lparr>status_code = 404, body = []\<rparr> \<and>
   request_fails sample_env image_url_2 \<and>
   extract_content sample_env empty_fs failing_request
     = (Inl (HTTPException 400 RequestFailed), empty_fs) \<and>
   title_text page_title_without_content = Inl KeyError \<and>
   extract_content env_title_without_content empty_fs sample_request
     = (Inl (HTTPException 500 ParseFailed), empty_fs) \<and>
   html_parser env_parser_raises [] = Inl (OtherException (ustr ''AssertionError'')) \<and>
   extract_content env_parser_raises empty_fs sample_request
     = (Inl (HTTPException 500 ParseFailed), empty_fs) \<and>
   http_get env_location_parse_error direct_url
     = Inl (OtherException (ustr ''LocationParseError'')) \<and>
   extract_content env_location_parse_error empty_fs sample_request
     = (Inl (HTTPException 500 ParseFailed), empty_fs)"
proof -
  have r1: "resolve (unicode_alnum sample_env) (req_url failing_request) = Inr image_url_2"
    by (simp add: eval_defs sample_env_def failing_request_def image_url_2_def)
  have h1: "http_get sample_env image_url_2 = Inr \<lparr>status_code = 404, body = []\<rparr>"
    by (simp add: env_defs page_defs direct_url_def)
  have f1: "request_fails sample_env image_url_2"
    by (simp add: request_fails_def h1)
  from fetch_failure_is_400_parse_failure_is_500 [OF r1, of empty_fs, THEN conjunct1] f1
  have c1: "extract_content sample_env empty_fs failing_request
     = (Inl (HTTPException 400 RequestFailed), empty_fs)"
    by simp
  have r2: "resolve (unicode_alnum env_title_without_content) (req_url sample_request)
      = Inr direct_url"
    by (rule resolve_sample_request) (simp add: env_defs)
  have h2: "http_get env_title_without_content direct_url = Inr sample_response"
    by (simp add: env_defs)
  have s2: "\<not> raise_for_status sample_response" by (simp add: env_defs)
  have p2: "html_parser env_title_without_content (body sample_response)
      = Inr page_title_without_content"
    by (simp add: env_defs)
  have t2: "title_text page_title_without_content = Inl KeyError"
    by (simp add: title_text_def page_defs)
  have "KeyError \<noteq> RequestException \<and>
      (http_get env_title_without_content direct_url = Inl KeyError \<or>
       (\<exists>r. http_get env_title_without_content direct_url = Inr r \<and> \<not> raise_for_status r \<and>
          (html_parser env_title_without_content (body r) = Inl KeyError \<or>
           (\<exists>soup. html_parser env_title_without_content (body r) = Inr soup \<and>
              title_text soup = Inl KeyError))))"
    using h2 s2 p2 t2 by auto
  from fetch_failure_is_400_parse_failure_is_500 [OF r2, of empty_fs,
      THEN conjunct2, THEN conjunct1, rule_format, OF this]
  have c2: "extract_content env_title_without_content empty_fs sample_request
     = (Inl (HTTPException 500 ParseFailed), empty_fs)"
    by (rule conjunct1)
  have r3: "resolve (unicode_alnum env_parser_raises) (req_url sample_request) = Inr direct_url"
    by (rule resolve_sample_request) (simp add: error_env_defs)
  have p3: "\<And>t. html_parser env_parser_raises t = Inl (OtherException (ustr ''AssertionError''))"
    by (simp add: error_env_defs)
  have h3: "http_get env_parser_raises direct_url = Inr \<lparr>status_code = 200, body = []\<rparr>"
    by (simp add: error_env_defs)
  have "OtherException (ustr ''AssertionError'') \<noteq> RequestException \<and>
      (http_get env_parser_raises direct_url = Inl (OtherException (ustr ''AssertionError'')) \<or>
       (\<exists>r. http_get env_parser_raises direct_url = Inr r \<and> \<not> raise_for_status r \<and>
          (html_parser env_parser_raises (body r) = Inl (OtherException (ustr ''AssertionError'')) \<or>
           (\<exists>soup. html_parser env_parser_raises (body r) = Inr soup \<and>
              title_text soup = Inl (OtherException (ustr ''AssertionError''))))))"
    using h3 p3 by (auto simp: raise_for_status_def)
  from fetch_failure_is_400_parse_failure_is_500 [OF r3, of empty_fs,
      THEN conjunct2, THEN conjunct1, rule_format, OF this]
  have c3: "extract_content env_parser_raises empty_fs sample_request
     = (Inl (HTTPException 500 ParseFailed), empty_fs)"
    by (rule conjunct1)
  have r4: "resolve (unicode_alnum env_location_parse_error) (req_url sample_request)
      = Inr direct_url"
    by (rule resolve_sample_request) (simp add: error_env_defs)
  have h4: "http_get env_location_parse_error direct_url
      = Inl (OtherException (ustr ''LocationParseError''))"
    by (simp add: error_env_defs)
  have "OtherException (ustr ''LocationParseError'') \<noteq> RequestException \<and>
      (http_get env_location_parse_error direct_url
         = Inl (OtherException (ustr ''LocationParseError'')) \<or>
       (\<exists>r. http_get env_location_parse_error direct_url = Inr r \<and> \<not> raise_for_status r \<and>
          (html_parser env_location_parse_error (body r)
             = Inl (OtherException (ustr ''LocationParseError'')) \<or>
           (\<exists>soup. html_parser env_location_parse_error (body r) = Inr soup \<and>
              title_text soup = Inl (OtherException (ustr ''LocationParseError''))))))"
    using h4 by simp
  from fetch_failure_is_400_parse_failure_is_500 [OF r4, of empty_fs,
      THEN conjunct2, THEN conjunct1, rule_format, OF this]
  have c4: "extract_content env_location_parse_error empty_fs sample_request
     = (Inl (HTTPException 500 ParseFailed), empty_fs)"
    by (rule conjunct1)
  from r1 h1 f1 c1 t2 c2 p3 [of "[]"] c3 h4 c4 show ?thesis by (intro conjI)
qed

lemma get_content_not_modified: "get_content env_not_modified direct_url = Inr sentinel_result"
proof -
  have h: "http_get env_not_modified direct_url = Inr \<lparr>status_code = 304, body = []\<rparr>"
    by (simp add: env_not_modified_def)
  have s: "\<not> raise_for_status \<lparr>status_code = 304, body = []\<rparr>"
    by (simp add: raise_for_status_def)
  have p: "html_parser env_not_modified (body \<lparr>status_code = 304, body = []\<rparr>) = Inr []"
    by (simp add: env_not_modified_def)
  have t: "title_text [] = Inr TITLE_NOT_FOUND"
    by (simp add: title_text_def find_def find_all_def descendants_def)
  have c: "content_text [] = BODY_NOT_FOUND"
    by (simp add: content_text_def find_def find_all_def descendants_def)
  have i: "og_images [] = []"
    by (simp add: og_images_def find_all_def descendants_def)
  show ?thesis
    by (simp add: get_content_def try_get_content_fetched [OF h s p] t c i sentinel_result_def)
qed

lemma get_content_location_parse_error:
  "get_content env_location_parse_error direct_url = Inl (HTTPException 500 ParseFailed)"
  by (simp add: get_content_def try_get_content_def error_env_defs)

text \<open>
  Claim C9 as stated fails for a status outside 200 to 299 that is not an error status:
  when the page request is answered with 304, \<open>raise_for_status\<close> does not raise, the
  (empty) body is parsed and the service answers with a record, not with status 400.
  And a page request that fails with an exception that is not a \<open>RequestException\<close>
  is answered with status 500, not 400.
\<close>

theorem status_304_is_not_a_fetch_failure_counterexample:
  "resolve (unicode_alnum env_not_modified) (req_url sample_request) = Inr direct_url \<and>
   http_get env_not_modified direct_url = Inr \<lparr>status_code = 304, body = []\<rparr> \<and>
   extract_content env_not_modified empty_fs sample_request = (Inr sentinel_result, empty_fs) \<and>
   extract_content_index env_not_modified empty_fs sample_request
     = (Inr sentinel_result, empty_fs) \<and>
   resolve (unicode_alnum env_location_parse_error) (req_url sample_request) = Inr direct_url \<and>
   http_get env_location_parse_error direct_url
     = Inl (OtherException (ustr ''LocationParseError'')) \<and>
   extract_content env_location_parse_error empty_fs sample_request
     = (Inl (HTTPException 500 ParseFailed), empty_fs)"
proof -
  have r: "resolve (unicode_alnum env_not_modified) (req_url sample_request) = Inr direct_url"
    by (rule resolve_sample_request) (simp add: error_env_defs)
  have h: "http_get env_not_modified direct_url = Inr \<lparr>status_code = 304, body = []\<rparr>"
    by (simp add: env_not_modified_def)
  have a: "extract_content env_not_modified empty_fs sample_request
      = (Inr sentinel_result, empty_fs)"
    using r get_content_not_modified by (simp add: extract_content_def sentinel_result_def)
  have b: "extract_content_index env_not_modified empty_fs sample_request
      = (Inr sentinel_result, empty_fs)"
    using r get_content_not_modified by (simp add: extract_content_index_def)
  have r4: "resolve (unicode_alnum env_location_parse_error) (req_url sample_request)
      = Inr direct_url"
    by (rule resolve_sample_request) (simp add: error_env_defs)
  have h4: "http_get env_location_parse_error direct_url
      = Inl (OtherException (ustr ''LocationParseError''))"
    by (simp add: error_env_defs)
  have c: "extract_content env_location_parse_error empty_fs sample_request
      = (Inl (HTTPException 500 ParseFailed), empty_fs)"
    using handlers_Inl [OF r4 get_content_location_parse_error] by simp
  from r h a b r4 h4 c show ?thesis by (intro conjI)
qed

text \<open>
  Claim C10.  In the HTTP service, when \<open>save_images\<close> is true and the extracted
  record has no images, the handler returns the record as extracted, with
  \<open>local_images\<close> still \<open>None\<close>, and the file system is unchanged: no directory, no
  \<open>info.json\<close>.
\<close>

theorem no_images_no_persistence:
  assumes "resolve (unicode_alnum e) (req_url req) = Inr u"
    and "get_content e u = Inr result"
    and "save_images req" and "images result = []"
  shows "extract_content e fs req = (Inr result, fs) \<and> local_images result = None"
  using assms get_content_local_images [OF assms(2)]
  by (simp add: extract_content_def)

theorem no_images_no_persistence_witness:
  "resolve (unicode_alnum env_mid_brand) (req_url sample_request) = Inr direct_url \<and>
   get_content env_mid_brand direct_url = Inr mid_brand_result \<and>
   save_images sample_request \<and> images mid_brand_result = [] \<and>
   extract_content env_mid_brand empty_fs sample_request = (Inr mid_brand_result, empty_fs) \<and>
   local_images mid_brand_result = None \<and>
   dirs empty_fs = {} \<and> files empty_fs = Map.empty"
proof -
  have r: "resolve (unicode_alnum env_mid_brand) (req_url sample_request) = Inr direct_url"
    using resolve_direct_url by (simp add: env_defs sample_request_def)
  have sv: "save_images sample_request" by (simp add: sample_request_def)
  have im: "images mid_brand_result = []" by (simp add: mid_brand_result_def)
  from no_images_no_persistence [OF r get_content_mid_brand sv im, of empty_fs]
    r get_content_mid_brand sv im
  show ?thesis by (simp add: empty_fs_def)
qed


end
